theory Spec2Isabelle
  imports Main
begin

section \<open>Values exchanged with the framework\<close>

text \<open>
  The application \<^verbatim>\<open>app.py\<close> is a Flask service over one SQLAlchemy model, \<^verbatim>\<open>Note\<close>,
  stored in SQLite (module docstring). Each handler is embedded as a function from the
  request and the table to the handler's result and the table after the request.

  \<open>json\<close> is what \<^verbatim>\<open>request.json\<close> evaluates to: the Python value parsed from the body
  (\<^verbatim>\<open>None\<close>, \<^verbatim>\<open>bool\<close>, \<^verbatim>\<open>int\<close>, \<^verbatim>\<open>str\<close>, \<^verbatim>\<open>list\<close>, \<^verbatim>\<open>dict\<close>). A dict is the list of its
  items; numbers with a fraction or an exponent are outside the model.
\<close>

datatype json =
    JNull
  | JBool bool
  | JInt int
  | JStr string
  | JArr "json list"
  | JObj "(string \<times> json) list"

text \<open>
  The exceptions the handlers can meet. \<open>HTTPException c\<close> is what \<^verbatim>\<open>request.json\<close>
  raises when the framework rejects the body (status \<open>c\<close>); \<open>BindError\<close> stands for
  the driver refusing a statement parameter, which is not an \<^verbatim>\<open>IntegrityError\<close>;
  \<open>UnmappedInstanceError\<close> is \<^verbatim>\<open>db.session.delete(None)\<close>.
\<close>

datatype exn =
    HTTPException nat
  | TypeError
  | KeyError
  | AttributeError
  | IntegrityError
  | BindError
  | UnmappedInstanceError

text \<open>The values the handlers put in the dictionaries they hand to \<^verbatim>\<open>jsonify\<close>.\<close>

type_synonym timestamp = nat

datatype rval = RNone | RInt int | RStr string | RDateTime timestamp

type_synonym rdict = "(string \<times> rval) list"

datatype body = JsonList "rdict list" | JsonDict rdict | Text string

text \<open>
  What a view function does: it returns a body with a status, returns \<^verbatim>\<open>None\<close>
  (falls off its end), or lets an exception escape.
\<close>

datatype outcome = Response body nat | NoResponse | Raised exn


section \<open>Python operations on the request body\<close>

fun truthy :: "json \<Rightarrow> bool" where
  "truthy JNull = False"
| "truthy (JBool b) = b"
| "truthy (JInt i) = (i \<noteq> 0)"
| "truthy (JStr s) = (s \<noteq> [])"
| "truthy (JArr xs) = (xs \<noteq> [])"
| "truthy (JObj kvs) = (kvs \<noteq> [])"

fun is_substr :: "string \<Rightarrow> string \<Rightarrow> bool" where
  "is_substr k [] = (k = [])"
| "is_substr k (c # cs) = (take (length k) (c # cs) = k \<or> is_substr k cs)"

text \<open>\<^verbatim>\<open>key in v\<close>: a key of a dict, an element of a list, a substring of a string.\<close>

fun py_in :: "string \<Rightarrow> json \<Rightarrow> exn + bool" where
  "py_in k (JObj kvs) = Inr (k \<in> set (map fst kvs))"
| "py_in k (JArr xs) = Inr (JStr k \<in> set xs)"
| "py_in k (JStr s) = Inr (is_substr k s)"
| "py_in k v = Inl TypeError"

text \<open>\<^verbatim>\<open>v[key]\<close> with a string key.\<close>

fun py_getitem :: "json \<Rightarrow> string \<Rightarrow> exn + json" where
  "py_getitem (JObj kvs) k = (case map_of kvs k of None \<Rightarrow> Inl KeyError | Some v \<Rightarrow> Inr v)"
| "py_getitem v k = Inl TypeError"

text \<open>\<^verbatim>\<open>v.get(key)\<close>: only a dict has the method.\<close>

fun py_get :: "json \<Rightarrow> string \<Rightarrow> exn + json" where
  "py_get (JObj kvs) k = (case map_of kvs k of None \<Rightarrow> Inr JNull | Some v \<Rightarrow> Inr v)"
| "py_get v k = Inl AttributeError"

text \<open>\<^verbatim>\<open>str(n)\<close> of a non-negative integer, as the f-string of \<^verbatim>\<open>delete\<close> formats the id.\<close>

function str_nat :: "nat \<Rightarrow> string" where
  "str_nat n = (if n < 10 then [''0123456789'' ! n]
                else str_nat (n div 10) @ [''0123456789'' ! (n mod 10)])"
  by pat_completeness auto
termination
  by (relation "measure id") auto

declare str_nat.simps [simp del]

definition str_int :: "int \<Rightarrow> string" where
  "str_int i = (if i < 0 then CHR ''-'' # str_nat (nat (- i)) else str_nat (nat i))"

section \<open>The table\<close>

text \<open>
  \<^verbatim>\<open>class Note(db.Model)\<close>: an integer primary key, two nullable string columns and a
  nullable timestamp whose default is the time of insertion.
\<close>

record Note =
  note_id :: nat
  title :: "string option"
  note_text :: "string option"
  data :: "timestamp option"

type_synonym db = "Note list"

text \<open>\<^verbatim>\<open>Note.query.get(note_id)\<close>: the row with that primary key, or \<^verbatim>\<open>None\<close>.\<close>

definition query_get :: "db \<Rightarrow> nat \<Rightarrow> Note option" where
  "query_get rows i = find (\<lambda>n. note_id n = i) rows"

text \<open>
  The key SQLite gives to a row inserted without one: one more than the largest key in
  the table, 1 in an empty table.
\<close>

definition next_id :: "db \<Rightarrow> nat" where
  "next_id rows = Suc (fold max (map note_id rows) 0)"

text \<open>
  A Python value bound to a \<^verbatim>\<open>String\<close> column of SQLite: \<^verbatim>\<open>None\<close> is NULL, a string
  is stored as it is whatever its length (SQLite does not enforce the declared length),
  an integer or a boolean within 64 bits is stored as its decimal text (text affinity),
  and the driver refuses a list, a dict and a larger integer.
\<close>

fun bind_string :: "json \<Rightarrow> exn + string option" where
  "bind_string JNull = Inr None"
| "bind_string (JStr s) = Inr (Some s)"
| "bind_string (JBool b) = Inr (Some (if b then ''1'' else ''0''))"
| "bind_string (JInt i) =
     (if - (2 ^ 63) \<le> i \<and> i < 2 ^ 63 then Inr (Some (str_int i)) else Inl BindError)"
| "bind_string (JArr xs) = Inl BindError"
| "bind_string (JObj kvs) = Inl BindError"

text \<open>
  \<^verbatim>\<open>db.session.add(Note(title=t, text=x)); db.session.commit()\<close> for a new object:
  one INSERT, with the key and the timestamp given by the database.
\<close>

definition commit_new :: "json \<Rightarrow> json \<Rightarrow> timestamp \<Rightarrow> db \<Rightarrow> exn + db" where
  "commit_new t x now rows =
     (case bind_string t of Inl e \<Rightarrow> Inl e | Inr t' \<Rightarrow>
       (case bind_string x of Inl e \<Rightarrow> Inl e | Inr x' \<Rightarrow>
          Inr (rows @
            [\<lparr>note_id = next_id rows, title = t', note_text = x', data = Some now\<rparr>])))"

text \<open>
  \<^verbatim>\<open>note.text = x; note.title = t; db.session.add(note); db.session.commit()\<close> for a
  loaded object: one UPDATE that sets the two columns where the key is the object's.
  The result holds the object as it reads after the commit.
\<close>

definition commit_update :: "Note \<Rightarrow> json \<Rightarrow> json \<Rightarrow> db \<Rightarrow> exn + Note \<times> db" where
  "commit_update n x t rows =
     (case bind_string x of Inl e \<Rightarrow> Inl e | Inr x' \<Rightarrow>
       (case bind_string t of Inl e \<Rightarrow> Inl e | Inr t' \<Rightarrow>
          Inr (n\<lparr>note_text := x', title := t'\<rparr>,
               map (\<lambda>r. if note_id r = note_id n then r\<lparr>note_text := x', title := t'\<rparr> else r)
                 rows)))"

text \<open>
  \<^verbatim>\<open>db.session.delete(note); db.session.commit()\<close>: \<^verbatim>\<open>delete(None)\<close> raises, a loaded
  object is removed by its key.
\<close>

definition commit_delete :: "Note option \<Rightarrow> db \<Rightarrow> exn + db" where
  "commit_delete note rows =
     (case note of None \<Rightarrow> Inl UnmappedInstanceError
      | Some n \<Rightarrow> Inr (filter (\<lambda>r. note_id r \<noteq> note_id n) rows))"

section \<open>The handlers\<close>

definition opt_str :: "string option \<Rightarrow> rval" where
  "opt_str s = (case s of None \<Rightarrow> RNone | Some v \<Rightarrow> RStr v)"

definition opt_time :: "timestamp option \<Rightarrow> rval" where
  "opt_time d = (case d of None \<Rightarrow> RNone | Some v \<Rightarrow> RDateTime v)"

text \<open>The dictionary that \<^verbatim>\<open>index\<close>, \<^verbatim>\<open>note_by_note_id\<close> and \<^verbatim>\<open>put\<close> build from a note.\<close>

definition note_dict :: "Note \<Rightarrow> rdict" where
  "note_dict n =
     [(''note_id'', RInt (int (note_id n))),
      (''title'', opt_str (title n)),
      (''text'', opt_str (note_text n)),
      (''data'', opt_time (data n))]"

text \<open>\<^verbatim>\<open>GET /notes/\<close>: the loop appends one dictionary per row to \<^verbatim>\<open>response\<close>.\<close>

fun index_loop :: "Note list \<Rightarrow> rdict list \<Rightarrow> rdict list" where
  "index_loop [] response = response"
| "index_loop (n # notes) response = index_loop notes (response @ [note_dict n])"

definition index :: "db \<Rightarrow> outcome \<times> db" where
  "index rows = (Response (JsonList (index_loop rows [])) 200, rows)"


text \<open>
  \<^verbatim>\<open>POST /notes\<close>. The first argument is the evaluation of \<^verbatim>\<open>request.json\<close>. The \<^verbatim>\<open>try\<close>
  block catches \<^verbatim>\<open>IntegrityError\<close> only, and the success path ends without a
  \<^verbatim>\<open>return\<close>.
\<close>

definition register_try :: "json \<Rightarrow> timestamp \<Rightarrow> db \<Rightarrow> exn + db" where
  "register_try new_note now rows =
     (case py_getitem new_note ''title'' of Inl e \<Rightarrow> Inl e | Inr t \<Rightarrow>
       (case py_getitem new_note ''text'' of Inl e \<Rightarrow> Inl e | Inr x \<Rightarrow>
          commit_new t x now rows))"

definition invalid_request :: body where
  "invalid_request = JsonDict [(''error'', RStr ''invalid note ID request'')]"

definition register_body :: "json \<Rightarrow> timestamp \<Rightarrow> db \<Rightarrow> outcome \<times> db" where
  "register_body new_note now rows =
     (case register_try new_note now rows of
        Inl IntegrityError \<Rightarrow> (Response (JsonDict [(''error'', RStr ''already exists'')]) 200, rows)
      | Inl e \<Rightarrow> (Raised e, rows)
      | Inr rows' \<Rightarrow> (NoResponse, rows'))"

definition register :: "exn + json \<Rightarrow> timestamp \<Rightarrow> db \<Rightarrow> outcome \<times> db" where
  "register req now rows =
     (case req of Inl e \<Rightarrow> (Raised e, rows) | Inr new_note \<Rightarrow>
       (if \<not> truthy new_note then (Response invalid_request 400, rows)
        else (case py_in ''text'' new_note of Inl e \<Rightarrow> (Raised e, rows) | Inr has_text \<Rightarrow>
          (if \<not> has_text then (Response invalid_request 400, rows)
           else (case py_in ''title'' new_note of Inl e \<Rightarrow> (Raised e, rows) | Inr has_title \<Rightarrow>
             (if \<not> has_title then (Response invalid_request 400, rows)
              else register_body new_note now rows))))))"

text \<open>
  \<^verbatim>\<open>PUT /notes/<int:note_id>\<close>. Everything is inside \<^verbatim>\<open>try\<close>, and \<^verbatim>\<open>except Exception\<close>
  answers 404 whatever was raised; the session of the request is discarded with its
  pending changes.
\<close>

definition message_error :: body where
  "message_error = JsonDict [(''message'', RStr ''error'')]"

definition put_try :: "nat \<Rightarrow> exn + json \<Rightarrow> db \<Rightarrow> exn + outcome \<times> db" where
  "put_try i req rows =
     (let note = query_get rows i in
      (case req of Inl e \<Rightarrow> Inl e | Inr req_json \<Rightarrow>
      (case py_get req_json ''text'' of Inl e \<Rightarrow> Inl e | Inr x \<Rightarrow>
      (case note of None \<Rightarrow> Inl AttributeError | Some n \<Rightarrow>
      (case py_get req_json ''title'' of Inl e \<Rightarrow> Inl e | Inr t \<Rightarrow>
      (case commit_update n x t rows of Inl e \<Rightarrow> Inl e | Inr (n', rows') \<Rightarrow>
        Inr (Response (JsonDict (note_dict n')) 204, rows')))))))"

definition put :: "nat \<Rightarrow> exn + json \<Rightarrow> db \<Rightarrow> outcome \<times> db" where
  "put i req rows =
     (case put_try i req rows of
        Inl e \<Rightarrow> (Response message_error 404, rows)
      | Inr r \<Rightarrow> r)"

text \<open>
  \<^verbatim>\<open>DELETE /notes/<int:note_id>\<close>. The message is the source's literal (the bytes of its
  UTF-8 text) followed by the id.
\<close>

definition deleted_prefix :: string where
  "deleted_prefix =
     ''You have deleted note '' @
     [CHR 0xC3, CHR 0xA2, CHR 0xE2, CHR 0x80, CHR 0x9E, CHR 0xE2, CHR 0x80, CHR 0x93] @ '' ''"

definition delete_try :: "nat \<Rightarrow> db \<Rightarrow> exn + outcome \<times> db" where
  "delete_try i rows =
     (let note = query_get rows i in
      (case commit_delete note rows of Inl e \<Rightarrow> Inl e | Inr rows' \<Rightarrow>
        Inr (Response (Text (deleted_prefix @ str_nat i)) 200, rows')))"

definition delete :: "nat \<Rightarrow> db \<Rightarrow> outcome \<times> db" where
  "delete i rows =
     (case delete_try i rows of
        Inl e \<Rightarrow> (Response message_error 404, rows)
      | Inr r \<Rightarrow> r)"

text \<open>
  A run of create requests, each with a string title, a string text and the time of its
  insertion, handled one after the other.
\<close>

fun create_all :: "(string \<times> string \<times> timestamp) list \<Rightarrow> db \<Rightarrow> db" where
  "create_all [] rows = rows"
| "create_all ((t, x, now) # reqs) rows =
     create_all reqs
       (snd (register (Inr (JObj [(''title'', JStr t), (''text'', JStr x)])) now rows))"

section \<open>Facts about the table\<close>

lemma index_loop_eq: "index_loop ns acc = acc @ map note_dict ns"
  by (induction ns arbitrary: acc) simp_all

lemma fold_max_lower: "(a::nat) \<le> fold max xs a"
proof (induction xs arbitrary: a)
  case Nil
  show ?case by simp
next
  case (Cons x xs)
  have "a \<le> max x a" by simp
  also have "\<dots> \<le> fold max xs (max x a)" by (rule Cons.IH)
  finally show ?case by simp
qed

lemma fold_max_upper: "x \<in> set xs \<Longrightarrow> (x::nat) \<le> fold max xs a"
proof (induction xs arbitrary: a)
  case Nil
  then show ?case by simp
next
  case (Cons y ys)
  show ?case
  proof (cases "x = y")
    case True
    have "x \<le> max y a" using True by simp
    also have "\<dots> \<le> fold max ys (max y a)" by (rule fold_max_lower)
    finally show ?thesis by simp
  next
    case False
    with Cons.prems have "x \<in> set ys" by simp
    then show ?thesis using Cons.IH by simp
  qed
qed

lemma next_id_fresh: "r \<in> set rows \<Longrightarrow> note_id r < next_id rows"
  unfolding next_id_def using fold_max_upper [of "note_id r" "map note_id rows" 0]
  by simp

lemma query_get_None_iff: "query_get rows i = None \<longleftrightarrow> i \<notin> note_id ` set rows"
  unfolding query_get_def by (auto simp: find_None_iff)

lemma query_get_fresh: "query_get rows (next_id rows) = None"
proof -
  have "next_id rows \<notin> note_id ` set rows"
  proof
    assume "next_id rows \<in> note_id ` set rows"
    then obtain r where "r \<in> set rows" and "note_id r = next_id rows" by auto
    with next_id_fresh [of r rows] show False by simp
  qed
  then show ?thesis by (simp add: query_get_None_iff)
qed


lemma query_get_id: "query_get rows i = Some n \<Longrightarrow> note_id n = i"
  unfolding query_get_def by (induction rows) (auto split: if_splits)

lemma query_get_mem: "query_get rows i = Some n \<Longrightarrow> n \<in> set rows"
  unfolding query_get_def by (induction rows) (auto split: if_splits)



section \<open>Properties of the handlers\<close>

lemma register_valid:
  assumes "map_of kvs ''title'' = Some t" and "map_of kvs ''text'' = Some x"
  shows "register (Inr (JObj kvs)) now rows = register_body (JObj kvs) now rows"
proof -
  from assms(1) have t: "''title'' \<in> fst ` set kvs" by (rule map_of_SomeD [THEN imageI [where f = fst], simplified])
  from assms(2) have x: "''text'' \<in> fst ` set kvs" by (rule map_of_SomeD [THEN imageI [where f = fst], simplified])
  from t have "kvs \<noteq> []" by auto
  with t x show ?thesis by (simp add: register_def)
qed

lemma register_strings:
  assumes "map_of kvs ''title'' = Some (JStr t)" and "map_of kvs ''text'' = Some (JStr x)"
  shows "register (Inr (JObj kvs)) now rows =
    (NoResponse, rows @ [\<lparr>note_id = next_id rows, title = Some t, note_text = Some x, data = Some now\<rparr>])"
  using assms
  by (simp add: register_valid [OF assms] register_body_def register_try_def commit_new_def)













text \<open>
  Claim C9 (create ignores other fields). A create request whose body has \<open>title\<close> and
  \<open>text\<close> behaves exactly as the request whose body has only these two fields, and
  whenever a record is inserted its id is the key chosen by the database from the table
  alone.
\<close>

theorem create_ignores_other_fields:
  assumes "map_of kvs ''title'' = Some t" and "map_of kvs ''text'' = Some x"
  shows "register (Inr (JObj kvs)) now rows =
           register (Inr (JObj [(''title'', t), (''text'', x)])) now rows
     \<and> (snd (register (Inr (JObj kvs)) now rows) = rows \<or>
        (\<exists>r. snd (register (Inr (JObj kvs)) now rows) = rows @ [r] \<and> note_id r = next_id rows))"
proof -
  have a: "register (Inr (JObj kvs)) now rows = register_body (JObj kvs) now rows"
    using assms by (rule register_valid)
  have b: "register (Inr (JObj [(''title'', t), (''text'', x)])) now rows =
           register_body (JObj [(''title'', t), (''text'', x)]) now rows"
    by (rule register_valid) simp_all
  have c: "register_try (JObj kvs) now rows = commit_new t x now rows"
    using assms by (simp add: register_try_def)
  have d: "register_try (JObj [(''title'', t), (''text'', x)]) now rows = commit_new t x now rows"
    by (simp add: register_try_def)
  have e: "register_body (JObj kvs) now rows = register_body (JObj [(''title'', t), (''text'', x)]) now rows"
    by (simp add: register_body_def c d)
  have f: "snd (register_body (JObj kvs) now rows) = rows \<or>
        (\<exists>r. snd (register_body (JObj kvs) now rows) = rows @ [r] \<and> note_id r = next_id rows)"
    by (auto simp: register_body_def c commit_new_def split: sum.splits exn.splits)
  from a b e f show ?thesis by simp
qed

theorem create_ignores_other_fields_witness:
  "register (Inr (JObj [(''note_id'', JInt 999), (''title'', JStr ''T''), (''data'', JStr ''x''), (''text'', JStr ''X'')])) 3 [] =
     (NoResponse, [\<lparr>note_id = 1, title = Some ''T'', note_text = Some ''X'', data = Some 3\<rparr>])"
  using create_ignores_other_fields [of "[(''note_id'', JInt 999), (''title'', JStr ''T''), (''data'', JStr ''x''), (''text'', JStr ''X'')]"
     "JStr ''T''" "JStr ''X''" 3 "[]"]
  by (simp add: register_def register_body_def register_try_def commit_new_def next_id_def)

lemma put_success:
  assumes "query_get rows i = Some n"
    and "py_get req_json ''text'' = Inr xv" and "bind_string xv = Inr x"
    and "py_get req_json ''title'' = Inr tv" and "bind_string tv = Inr t"
  shows "put i (Inr req_json) rows =
           (Response (JsonDict (note_dict (n\<lparr>note_text := x, title := t\<rparr>))) 204,
            map (\<lambda>r. if note_id r = i then r\<lparr>note_text := x, title := t\<rparr> else r) rows)"
  using assms query_get_id [OF assms(1)]
  by (simp add: put_def put_try_def commit_update_def)

lemma put_cases:
  "put i req rows = (Response message_error 404, rows) \<or>
   (\<exists>n x t. query_get rows i = Some n \<and>
      put i req rows =
        (Response (JsonDict (note_dict (n\<lparr>note_text := x, title := t\<rparr>))) 204,
         map (\<lambda>r. if note_id r = i then r\<lparr>note_text := x, title := t\<rparr> else r) rows))"
proof (cases "put_try i req rows")
  case (Inl e)
  then show ?thesis by (simp add: put_def)
next
  case (Inr r)
  then obtain req_json xv n tv n' rows' where
      req: "req = Inr req_json" and xv: "py_get req_json ''text'' = Inr xv"
      and n: "query_get rows i = Some n" and tv: "py_get req_json ''title'' = Inr tv"
      and cu: "commit_update n xv tv rows = Inr (n', rows')"
    by (auto simp: put_try_def Let_def split: sum.splits option.splits)
  from cu obtain x t where x: "bind_string xv = Inr x" and t: "bind_string tv = Inr t"
    by (auto simp: commit_update_def split: sum.splits)
  from put_success [OF n xv x tv t] n req show ?thesis by blast
qed



text \<open>
  Claim C7 (replace frame condition). After a replace that answers 204 the table has the
  same rows in the same positions, every row keeps its \<open>note_id\<close> and its \<open>data\<close>
  timestamp, and every row whose id is not the requested one is unchanged.
\<close>

theorem put_frame:
  assumes "put i req rows = (Response b 204, rows')"
  shows "length rows' = length rows
     \<and> (\<forall>k < length rows.
          note_id (rows' ! k) = note_id (rows ! k) \<and> data (rows' ! k) = data (rows ! k)
          \<and> (note_id (rows ! k) \<noteq> i \<longrightarrow> rows' ! k = rows ! k))"
proof -
  from put_cases [of i req rows] assms obtain x t where
      r: "rows' = map (\<lambda>r. if note_id r = i then r\<lparr>note_text := x, title := t\<rparr> else r) rows"
    by (auto simp: message_error_def)
  then show ?thesis by simp
qed

theorem put_frame_witness:
  "put 3 (Inr (JObj [(''text'', JStr ''new'')]))
       [\<lparr>note_id = 2, title = Some ''a'', note_text = Some ''b'', data = Some 10\<rparr>,
        \<lparr>note_id = 3, title = Some ''old'', note_text = Some ''c'', data = Some 20\<rparr>] =
     (Response (JsonDict [(''note_id'', RInt 3), (''title'', RNone), (''text'', RStr ''new''),
                          (''data'', RDateTime 20)]) 204,
       [\<lparr>note_id = 2, title = Some ''a'', note_text = Some ''b'', data = Some 10\<rparr>,
        \<lparr>note_id = 3, title = None, note_text = Some ''new'', data = Some 20\<rparr>])
   \<and> length [\<lparr>note_id = 2, title = Some ''a'', note_text = Some ''b'', data = Some 10\<rparr>,
        \<lparr>note_id = 3, title = None, note_text = Some ''new'', data = Some (20::nat)\<rparr>] = 2"
proof -
  let ?a = "\<lparr>note_id = 2, title = Some ''a'', note_text = Some ''b'', data = Some 10\<rparr>"
  let ?b = "\<lparr>note_id = 3, title = Some ''old'', note_text = Some ''c'', data = Some 20\<rparr>"
  let ?b' = "\<lparr>note_id = 3, title = None, note_text = Some ''new'', data = Some 20\<rparr>"
  let ?d = "JsonDict [(''note_id'', RInt 3), (''title'', RNone), (''text'', RStr ''new''),
                          (''data'', RDateTime 20)]"
  have p: "put 3 (Inr (JObj [(''text'', JStr ''new'')])) [?a, ?b] = (Response ?d 204, [?a, ?b'])"
    by (simp add: put_def put_try_def commit_update_def query_get_def note_dict_def
          opt_str_def opt_time_def)
  from put_frame [OF p] have "length [?a, ?b'] = length [?a, ?b]" by (rule conjunct1)
  with p show ?thesis by simp
qed

text \<open>
  Claim C10 (error atomicity of replace and delete). Whenever replace or delete answers
  404 with \<^verbatim>\<open>{"message": "error"}\<close> the table after the request is the table before it.
  The causes named by the claim all end there: an id without a record, a body that
  \<^verbatim>\<open>request.json\<close> rejects, and a field that the storage refuses.
\<close>

theorem error_atomicity:
  "(fst (put i req rows) = Response (JsonDict [(''message'', RStr ''error'')]) 404
      \<longrightarrow> snd (put i req rows) = rows)
   \<and> (fst (delete i rows) = Response (JsonDict [(''message'', RStr ''error'')]) 404
      \<longrightarrow> snd (delete i rows) = rows)
   \<and> (query_get rows i = None
      \<longrightarrow> put i req rows = (Response (JsonDict [(''message'', RStr ''error'')]) 404, rows))
   \<and> (\<forall>e. req = Inl e
      \<longrightarrow> put i req rows = (Response (JsonDict [(''message'', RStr ''error'')]) 404, rows))
   \<and> (\<forall>kvs k v e. req = Inr (JObj kvs) \<and> k \<in> {''title'', ''text''} \<and> map_of kvs k = Some v
          \<and> bind_string v = Inl e
      \<longrightarrow> put i req rows = (Response (JsonDict [(''message'', RStr ''error'')]) 404, rows))"
proof -
  have a: "fst (put i req rows) = Response message_error 404 \<longrightarrow> snd (put i req rows) = rows"
    using put_cases [of i req rows] by auto
  have b: "fst (delete i rows) = Response message_error 404 \<longrightarrow> snd (delete i rows) = rows"
    by (cases "query_get rows i") (simp_all add: delete_def delete_try_def commit_delete_def)
  have c: "query_get rows i = None \<longrightarrow> put i req rows = (Response message_error 404, rows)"
    by (auto simp: put_def put_try_def split: sum.splits)
  have d: "\<forall>e. req = Inl e \<longrightarrow> put i req rows = (Response message_error 404, rows)"
    by (simp add: put_def put_try_def)
  have e: "\<forall>kvs k v e. req = Inr (JObj kvs) \<and> k \<in> {''title'', ''text''} \<and> map_of kvs k = Some v
          \<and> bind_string v = Inl e
      \<longrightarrow> put i req rows = (Response message_error 404, rows)"
    by (auto simp: put_def put_try_def commit_update_def split: sum.splits option.splits)
  from a b c d e show ?thesis unfolding message_error_def by blast
qed

theorem error_atomicity_witness:
  "put 9 (Inr (JObj [(''title'', JStr ''t'')]))
       [\<lparr>note_id = 2, title = Some ''a'', note_text = Some ''b'', data = Some 10\<rparr>] =
     (Response (JsonDict [(''message'', RStr ''error'')]) 404,
       [\<lparr>note_id = 2, title = Some ''a'', note_text = Some ''b'', data = Some 10\<rparr>])
   \<and> put 2 (Inr (JObj [(''title'', JArr [])]))
       [\<lparr>note_id = 2, title = Some ''a'', note_text = Some ''b'', data = Some 10\<rparr>] =
     (Response (JsonDict [(''message'', RStr ''error'')]) 404,
       [\<lparr>note_id = 2, title = Some ''a'', note_text = Some ''b'', data = Some 10\<rparr>])"
proof -
  let ?a = "\<lparr>note_id = 2, title = Some ''a'', note_text = Some ''b'', data = Some 10\<rparr>"
  have g: "query_get [?a] 9 = None" by (simp add: query_get_def)
  from error_atomicity [of 9 "Inr (JObj [(''title'', JStr ''t'')])" "[?a]"] g
  have one: "put 9 (Inr (JObj [(''title'', JStr ''t'')])) [?a] =
     (Response (JsonDict [(''message'', RStr ''error'')]) 404, [?a])" by blast
  have "Inr (JObj [(''title'', JArr [])]) = (Inr (JObj [(''title'', JArr [])]) :: exn + json)
      \<and> ''title'' \<in> {''title'', ''text''} \<and> map_of [(''title'', JArr [])] ''title'' = Some (JArr [])
      \<and> bind_string (JArr []) = Inl BindError" by simp
  with error_atomicity [of 2 "Inr (JObj [(''title'', JArr [])])" "[?a]"]
  have two: "put 2 (Inr (JObj [(''title'', JArr [])])) [?a] =
     (Response (JsonDict [(''message'', RStr ''error'')]) 404, [?a])" by blast
  from one two show ?thesis by simp
qed

lemma index_eq: "index rows = (Response (JsonList (map note_dict rows)) 200, rows)"
  by (simp add: index_def index_loop_eq)

lemma register_step:
  "snd (register (Inr (JObj [(''title'', JStr t), (''text'', JStr x)])) now rows) =
     rows @ [\<lparr>note_id = next_id rows, title = Some t, note_text = Some x, data = Some now\<rparr>]"
  by (simp add: register_strings)

lemma create_all_length: "length (create_all reqs rows) = length rows + length reqs"
  by (induction reqs rows rule: create_all.induct) (simp_all add: register_step)

lemma distinct_append_new:
  assumes "distinct (map note_id rows)" and "note_id r = next_id rows"
  shows "distinct (map note_id (rows @ [r]))"
proof -
  have "next_id rows \<notin> note_id ` set rows"
    using query_get_fresh [of rows] by (simp add: query_get_None_iff)
  with assms show ?thesis by simp
qed

lemma create_all_distinct:
  "distinct (map note_id rows) \<Longrightarrow> distinct (map note_id (create_all reqs rows))"
proof (induction reqs rows rule: create_all.induct)
  case (1 rows)
  then show ?case by simp
next
  case (2 t x now reqs rows)
  let ?r = "\<lparr>note_id = next_id rows, title = Some t, note_text = Some x, data = Some now\<rparr>"
  have "distinct (map note_id (rows @ [?r]))"
    using "2.prems" by (rule distinct_append_new) simp
  then show ?case using "2.IH" by (simp add: register_step)
qed

lemma filter_key_length:
  "distinct (map note_id rows) \<Longrightarrow> i \<in> note_id ` set rows \<Longrightarrow>
   Suc (length (filter (\<lambda>r. note_id r \<noteq> i) rows)) = length rows"
proof (induction rows)
  case Nil
  then show ?case by simp
next
  case (Cons r rows)
  show ?case
  proof (cases "note_id r = i")
    case True
    with Cons.prems have "i \<notin> note_id ` set rows" by auto
    then have "filter (\<lambda>r. note_id r \<noteq> i) rows = rows" by (auto simp: filter_id_conv)
    with True show ?thesis by simp
  next
    case False
    with Cons show ?thesis by auto
  qed
qed

lemma delete_snd: "snd (delete i rows) = filter (\<lambda>r. note_id r \<noteq> i) rows"
proof (cases "query_get rows i")
  case None
  then have "filter (\<lambda>r. note_id r \<noteq> i) rows = rows"
    by (auto simp: query_get_None_iff filter_id_conv)
  with None show ?thesis by (simp add: delete_def delete_try_def commit_delete_def)
next
  case (Some n)
  then show ?thesis
    by (simp add: delete_def delete_try_def commit_delete_def query_get_id)
qed

text \<open>
  Claim C6 (list totality and completeness). The list operation answers 200 with one
  dictionary \<^verbatim>\<open>{note_id, title, text, data}\<close> per stored row, in table order, the empty
  list for the empty table, and it changes nothing. From a table with distinct keys,
  after any run of creates and the delete of an id then present, the list holds the
  dictionaries of the remaining rows: one fewer than the rows before the run plus the
  creates, and their ids are the ids present before the delete without the deleted one.
\<close>

theorem list_complete:
  "index rows = (Response (JsonList (map note_dict rows)) 200, rows)
   \<and> index [] = (Response (JsonList []) 200, [])
   \<and> (distinct (map note_id rows) \<and> i \<in> note_id ` set (create_all reqs rows) \<longrightarrow>
        (\<exists>rows'. snd (delete i (create_all reqs rows)) = rows'
           \<and> index rows' = (Response (JsonList (map note_dict rows')) 200, rows')
           \<and> length (map note_dict rows') = length rows + length reqs - 1
           \<and> note_id ` set rows' = note_id ` set (create_all reqs rows) - {i}))"
proof -
  have a: "index rows = (Response (JsonList (map note_dict rows)) 200, rows)" by (rule index_eq)
  have b: "index [] = (Response (JsonList []) 200, [])" by (simp add: index_eq)
  have c: "\<exists>rows'. snd (delete i (create_all reqs rows)) = rows'
           \<and> index rows' = (Response (JsonList (map note_dict rows')) 200, rows')
           \<and> length (map note_dict rows') = length rows + length reqs - 1
           \<and> note_id ` set rows' = note_id ` set (create_all reqs rows) - {i}"
    if d: "distinct (map note_id rows)" and i: "i \<in> note_id ` set (create_all reqs rows)"
  proof -
    let ?all = "create_all reqs rows"
    let ?rows' = "filter (\<lambda>r. note_id r \<noteq> i) ?all"
    have "distinct (map note_id ?all)" using d by (rule create_all_distinct)
    then have "Suc (length ?rows') = length ?all" using i by (rule filter_key_length)
    then have len: "length (map note_dict ?rows') = length rows + length reqs - 1"
      by (simp add: create_all_length)
    have ids: "note_id ` set ?rows' = note_id ` set ?all - {i}" by auto
    from len ids show ?thesis by (simp add: delete_snd index_eq)
  qed
  from a b c show ?thesis by blast
qed

theorem list_complete_witness:
  "index (snd (delete 2 (create_all [(''a'', ''x'', 10), (''b'', ''y'', 20), (''c'', ''z'', 30)] []))) =
     (Response (JsonList
        [[(''note_id'', RInt 1), (''title'', RStr ''a''), (''text'', RStr ''x''), (''data'', RDateTime 10)],
         [(''note_id'', RInt 3), (''title'', RStr ''c''), (''text'', RStr ''z''), (''data'', RDateTime 30)]]) 200,
      [\<lparr>note_id = 1, title = Some ''a'', note_text = Some ''x'', data = Some 10\<rparr>,
       \<lparr>note_id = 3, title = Some ''c'', note_text = Some ''z'', data = Some 30\<rparr>])"
proof -
  let ?reqs = "[(''a'', ''x'', 10), (''b'', ''y'', 20), (''c'', ''z'', 30)] :: (string \<times> string \<times> timestamp) list"
  have all: "create_all ?reqs [] =
      [\<lparr>note_id = 1, title = Some ''a'', note_text = Some ''x'', data = Some 10\<rparr>,
       \<lparr>note_id = 2, title = Some ''b'', note_text = Some ''y'', data = Some 20\<rparr>,
       \<lparr>note_id = 3, title = Some ''c'', note_text = Some ''z'', data = Some 30\<rparr>]"
    by (simp add: register_step next_id_def)
  have pre: "distinct (map note_id ([] :: db)) \<and> 2 \<in> note_id ` set (create_all ?reqs [])"
    unfolding all by simp
  from list_complete [of "[]" 2 ?reqs] pre
  have "index (snd (delete 2 (create_all ?reqs []))) =
     (Response (JsonList (map note_dict (snd (delete 2 (create_all ?reqs []))))) 200,
      snd (delete 2 (create_all ?reqs [])))" by blast
  moreover have "snd (delete 2 (create_all ?reqs [])) =
      [\<lparr>note_id = 1, title = Some ''a'', note_text = Some ''x'', data = Some 10\<rparr>,
       \<lparr>note_id = 3, title = Some ''c'', note_text = Some ''z'', data = Some 30\<rparr>]"
    unfolding all delete_snd by simp
  ultimately show ?thesis by (simp add: note_dict_def opt_str_def opt_time_def)
qed

end
